theory Spec2Isabelle
  imports Main "HOL-Library.Monad_Syntax"
begin

unbundle bit_operations_syntax

section \<open>Shared outcome type\<close>

text \<open>
  The sprite tools are Python scripts. Python integers are unbounded, so every number is
  an \<^typ>\<open>int\<close>; the shifts \<open>>>\<close> and \<open><<\<close> are \<^const>\<open>drop_bit\<close> and
  \<^const>\<open>push_bit\<close>, and \<open>|\<close>, \<open>&\<close> are \<open>OR\<close>, \<open>AND\<close> on \<^typ>\<open>int\<close>
  (two's complement, as in Python). A function that can leave by an exception or by
  \<open>sys.exit\<close> returns \<open>error + 'a\<close>, with \<open>Inl\<close> for the abnormal exit.
\<close>

datatype error =
    SystemExit int        \<comment> \<open>\<open>sys.exit(code)\<close>\<close>
  | ZeroDivisionError     \<comment> \<open>\<open>//\<close> by zero\<close>
  | IndexError            \<comment> \<open>\<open>getpixel\<close> outside the image\<close>
  | ValueError            \<comment> \<open>\<open>range\<close> with step zero\<close>

section \<open>Colour codec\<close>

text \<open>\<open>TRANSPARENT_RGB565 = 0xF81F\<close> in \<open>sprite2c.py\<close> and \<open>spritedata2png.py\<close>,
  \<open>T\<close> in \<open>generate_placeholders.py\<close>.\<close>

definition TRANSPARENT_RGB565 :: int where
  "TRANSPARENT_RGB565 = 0xF81F"

text \<open>\<open>sprite2c.rgb_to_rgb565\<close>: the bare 5/6/5 packing, a single \<open>return\<close>.\<close>

definition rgb_to_rgb565 :: "int \<Rightarrow> int \<Rightarrow> int \<Rightarrow> int" where
  "rgb_to_rgb565 r g b =
     (push_bit 11 (drop_bit 3 r) OR push_bit 5 (drop_bit 2 g)) OR drop_bit 3 b"

text \<open>\<open>generate_placeholders.rgb565\<close>: the same packing followed by the guard against the
  transparent value.\<close>

definition rgb565 :: "int \<Rightarrow> int \<Rightarrow> int \<Rightarrow> int" where
  "rgb565 r g b =
     (let val = (push_bit 11 (drop_bit 3 r) OR push_bit 5 (drop_bit 2 g)) OR drop_bit 3 b
      in if val = TRANSPARENT_RGB565 then 0xF81E else val)"

text \<open>\<open>spritedata2png.rgb565_to_rgb\<close>: unpack the three fields and copy their high bits
  into the low bits that the packing dropped.\<close>

definition rgb565_to_rgb :: "int \<Rightarrow> int \<times> int \<times> int" where
  "rgb565_to_rgb val =
     (let r = push_bit 3 (drop_bit 11 val AND 0x1F);
          g = push_bit 2 (drop_bit 5 val AND 0x3F);
          b = push_bit 3 (val AND 0x1F);
          r = r OR drop_bit 5 r;
          g = g OR drop_bit 6 g;
          b = b OR drop_bit 5 b
      in (r, g, b))"

text \<open>Neither encoder contains a \<open>raise\<close>, an \<open>assert\<close> or a range test, and Python's
  shifts and bitwise or are defined on every integer: the outcome of a call is always a
  value.\<close>

definition rgb_to_rgb565_outcome :: "int \<Rightarrow> int \<Rightarrow> int \<Rightarrow> error + int" where
  "rgb_to_rgb565_outcome r g b = Inr (rgb_to_rgb565 r g b)"

definition rgb565_outcome :: "int \<Rightarrow> int \<Rightarrow> int \<Rightarrow> error + int" where
  "rgb565_outcome r g b = Inr (rgb565 r g b)"

text \<open>The body of the innermost loop of \<open>sprite2c.convert_sprite\<close>, applied to one RGBA
  pixel: colour key first, then the alpha test, then the packing with its guard. The colour
  key is \<open>None\<close> or a triple; a triple is truthy in Python whatever its components.\<close>

type_synonym rgba = "int \<times> int \<times> int \<times> int"

definition convert_pixel :: "(int \<times> int \<times> int) option \<Rightarrow> rgba \<Rightarrow> int" where
  "convert_pixel transparent_color px =
     (case px of (r, g, b, a) \<Rightarrow>
        if transparent_color \<noteq> None \<and> Some (r, g, b) = transparent_color
          then TRANSPARENT_RGB565
        else if a < 128 then TRANSPARENT_RGB565
        else (let val = rgb_to_rgb565 r g b
              in if val = TRANSPARENT_RGB565 then 0xF81E else val))"

section \<open>Raster images and the spritesheet loop\<close>

text \<open>
  A Pillow image after \<open>convert("RGBA")\<close>: its size and one RGBA quadruple per
  coordinate. \<open>getpixel\<close> raises \<open>IndexError\<close> for a coordinate outside the image;
  \<open>convert_sprite\<close> only builds coordinates from \<open>range\<close> counters, which are never
  negative.
\<close>

record image =
  img_width :: int
  img_height :: int
  img_pixels :: "int \<times> int \<Rightarrow> rgba"

definition getpixel :: "image \<Rightarrow> int \<times> int \<Rightarrow> error + rgba" where
  "getpixel img xy =
     (case xy of (x, y) \<Rightarrow>
        if 0 \<le> x \<and> x < img_width img \<and> 0 \<le> y \<and> y < img_height img
        then Inr (img_pixels img (x, y)) else Inl IndexError)"

text \<open>\<open>range(n)\<close>: empty when \<open>n \<le> 0\<close>.\<close>

definition range_py :: "int \<Rightarrow> int list" where
  "range_py n = [0..n - 1]"

text \<open>A loop that appends one result per iteration and is left by the first exception.\<close>

fun collect :: "('a \<Rightarrow> error + 'b) \<Rightarrow> 'a list \<Rightarrow> error + 'b list" where
  "collect f [] = Inr []"
| "collect f (x # xs) =
     (case f x of
        Inl e \<Rightarrow> Inl e
      | Inr v \<Rightarrow> (case collect f xs of Inl e \<Rightarrow> Inl e | Inr vs \<Rightarrow> Inr (v # vs)))"

text \<open>The two inner loops of \<open>convert_sprite\<close> (over \<open>y\<close>, then \<open>x\<close>) for the frame at
  \<open>(row, col)\<close>.\<close>

definition read_frame ::
  "image \<Rightarrow> int \<Rightarrow> int \<Rightarrow> (int \<times> int \<times> int) option \<Rightarrow> int \<times> int \<Rightarrow> error + int list" where
  "read_frame img frame_width frame_height transparent_color rc =
     (case rc of (row, col) \<Rightarrow>
        collect (\<lambda>(y, x).
            case getpixel img (col * frame_width + x, row * frame_height + y) of
              Inl e \<Rightarrow> Inl e
            | Inr px \<Rightarrow> Inr (convert_pixel transparent_color px))
          (List.product (range_py frame_height) (range_py frame_width)))"

text \<open>\<open>sprite2c.convert_sprite\<close>. The two floor divisions raise on a zero frame size, in
  the order of the source; an empty sheet leaves through \<open>sys.exit(1)\<close>.\<close>

definition convert_sprite ::
  "image \<Rightarrow> int \<Rightarrow> int \<Rightarrow> (int \<times> int \<times> int) option \<Rightarrow> int option \<Rightarrow> error + int list list" where
  "convert_sprite img frame_width frame_height transparent_color cols =
     (if frame_width = 0 then Inl ZeroDivisionError
      else let max_cols = img_width img div frame_width;
               cols = (case cols of Some c \<Rightarrow> c | None \<Rightarrow> max_cols)
           in if frame_height = 0 then Inl ZeroDivisionError
              else let rows = img_height img div frame_height
                   in if cols = 0 \<or> rows = 0 then Inl (SystemExit 1)
                      else collect (read_frame img frame_width frame_height transparent_color)
                             (List.product (range_py rows) (range_py cols)))"

text \<open>What a frame must hold, read off the image directly: the pixel rule applied to the
  cell at \<open>(row, col)\<close>, row-major.\<close>

definition frame_pixels ::
  "image \<Rightarrow> int \<Rightarrow> int \<Rightarrow> (int \<times> int \<times> int) option \<Rightarrow> int \<times> int \<Rightarrow> int list" where
  "frame_pixels img frame_width frame_height transparent_color rc =
     (case rc of (row, col) \<Rightarrow>
        map (\<lambda>(y, x). convert_pixel transparent_color
              (img_pixels img (col * frame_width + x, row * frame_height + y)))
          (List.product (range_py frame_height) (range_py frame_width)))"

text \<open>Two small images for concrete runs: a strip of a magenta and a red pixel, and a
  single almost transparent pixel.\<close>

definition two_pixel_strip :: image where
  "two_pixel_strip =
     \<lparr>img_width = 2, img_height = 1,
      img_pixels = (\<lambda>xy. if fst xy = 0 then (255, 0, 255, 255) else (255, 60, 60, 255))\<rparr>"

definition faint_pixel :: image where
  "faint_pixel = \<lparr>img_width = 1, img_height = 1, img_pixels = (\<lambda>xy. (10, 20, 30, 0))\<rparr>"

section \<open>Text output\<close>

definition digit_char :: "nat \<Rightarrow> char" where
  "digit_char d = ''0123456789ABCDEF'' ! d"

text \<open>\<open>str(n)\<close> for \<open>n \<ge> 0\<close> and for any integer.\<close>

fun str_nat :: "nat \<Rightarrow> string" where
  "str_nat n = (if n < 10 then [digit_char n] else str_nat (n div 10) @ [digit_char (n mod 10)])"

declare str_nat.simps [simp del]

definition str_int :: "int \<Rightarrow> string" where
  "str_int i = (if i < 0 then CHR ''-'' # str_nat (nat (- i)) else str_nat (nat i))"

text \<open>The format \<open>{v:04X}\<close>: upper-case hexadecimal, zero-padded to four characters, the
  sign counted in the width.\<close>

fun hex_nat :: "nat \<Rightarrow> string" where
  "hex_nat n = (if n < 16 then [digit_char n] else hex_nat (n div 16) @ [digit_char (n mod 16)])"

declare hex_nat.simps [simp del]

definition zfill :: "nat \<Rightarrow> string \<Rightarrow> string" where
  "zfill w s = replicate (w - length s) CHR ''0'' @ s"

definition format_04X :: "int \<Rightarrow> string" where
  "format_04X v =
     (if v < 0 then CHR ''-'' # zfill 3 (hex_nat (nat (- v))) else zfill 4 (hex_nat (nat v)))"

text \<open>\<open>sep.join(parts)\<close>.\<close>

fun join :: "string \<Rightarrow> string list \<Rightarrow> string" where
  "join sep [] = []"
| "join sep [p] = p"
| "join sep (p # q # ps) = p @ sep @ join sep (q # ps)"

text \<open>\<open>range(0, n, step)\<close> for a list length \<open>n\<close>: \<open>ValueError\<close> for step zero, empty for
  a negative step.\<close>

definition range_step :: "nat \<Rightarrow> int \<Rightarrow> error + nat list" where
  "range_step n step =
     (if step = 0 then Inl ValueError
      else if step < 0 then Inr []
      else Inr (map (\<lambda>k. k * nat step) [0..<(n + nat step - 1) div nat step]))"

text \<open>\<open>sprite2c.format_array\<close>. The slice \<open>data[row_start:row_start + width]\<close> is only
  taken for a positive \<open>width\<close>.\<close>

definition format_array :: "string \<Rightarrow> nat \<Rightarrow> int list \<Rightarrow> int \<Rightarrow> error + string" where
  "format_array name frame_idx data width =
     (case range_step (length data) width of
        Inl e \<Rightarrow> Inl e
      | Inr row_starts \<Rightarrow>
          Inr (join ''\<newline>''
            ([''constexpr uint16_t sprite_'' @ name @ ''_frame'' @ str_nat frame_idx @ ''[''
                @ str_nat (length data) @ ''] = {'']
             @ map (\<lambda>row_start.
                  ''    '' @ join '', '' (map (\<lambda>v. ''0x'' @ format_04X v)
                     (take (nat width) (drop row_start data))) @ '','') row_starts
             @ [''};''])))"

section \<open>The packing as arithmetic\<close>

lemma push_bit_or_small:
  fixes x y :: int
  assumes "0 \<le> y" "y < 2 ^ n"
  shows "push_bit n x OR y = x * 2 ^ n + y"
proof -
  have y: "y = take_bit n y"
    using assms by (simp add: take_bit_int_eq_self)
  have "push_bit n x + y = push_bit n x OR y"
  proof (rule disjunctive_add)
    fix k
    have "bit y k \<Longrightarrow> k < n"
      by (subst (asm) y) (simp add: bit_simps)
    then show "\<not> bit (push_bit n x) k \<or> \<not> bit y k"
      by (auto simp: bit_simps)
  qed
  then show ?thesis
    by (simp add: push_bit_eq_mult)
qed

lemma and_31_mod: "x AND 31 = x mod (32::int)"
proof -
  have "(31::int) = mask 5"
    by (simp add: mask_eq_exp_minus_1)
  then have "x AND 31 = take_bit 5 x"
    by (simp add: take_bit_eq_mask)
  then show ?thesis
    by (simp add: take_bit_eq_mod)
qed

lemma and_63_mod: "x AND 63 = x mod (64::int)"
proof -
  have "(63::int) = mask 6"
    by (simp add: mask_eq_exp_minus_1)
  then have "x AND 63 = take_bit 6 x"
    by (simp add: take_bit_eq_mask)
  then show ?thesis
    by (simp add: take_bit_eq_mod)
qed

lemma pack_arith:
  fixes a c d :: int
  assumes "0 \<le> c" "c < 64" "0 \<le> d" "d < 32"
  shows "(push_bit 11 a OR push_bit 5 c) OR d = a * 2048 + c * 32 + d"
proof -
  have "push_bit 11 a OR push_bit 5 c = push_bit 5 (push_bit 6 a OR c)"
    by (simp add: push_bit_or push_bit_push_bit)
  also have "push_bit 6 a OR c = a * 2 ^ 6 + c"
    using assms by (intro push_bit_or_small) simp_all
  finally have "(push_bit 11 a OR push_bit 5 c) OR d = push_bit 5 (a * 2 ^ 6 + c) OR d"
    by simp
  also have "\<dots> = (a * 2 ^ 6 + c) * 2 ^ 5 + d"
    using assms by (intro push_bit_or_small) simp_all
  finally show ?thesis
    by (simp add: algebra_simps)
qed

lemma rgb_to_rgb565_arith:
  assumes "0 \<le> g" "g \<le> 255" "0 \<le> b" "b \<le> 255"
  shows "rgb_to_rgb565 r g b = (r div 8) * 2048 + (g div 4) * 32 + b div 8"
proof -
  have "0 \<le> g div 4" "g div 4 < 64" "0 \<le> b div 8" "b div 8 < 32"
    using assms by simp_all
  then show ?thesis
    unfolding rgb_to_rgb565_def by (simp add: drop_bit_eq_div pack_arith)
qed

lemma rgb565_to_rgb_arith:
  "rgb565_to_rgb v =
     (let a = (v div 2048) mod 32; c = (v div 32) mod 64; d = v mod 32
      in (a * 8 + a div 4, c * 4 + c div 16, d * 8 + d div 4))"
proof -
  define a c d where "a = (v div 2048) mod 32" and "c = (v div 32) mod 64" and "d = v mod 32"
  have ra: "0 \<le> a" "a < 32" and rc: "0 \<le> c" "c < 64" and rd: "0 \<le> d" "d < 32"
    by (simp_all add: a_def c_def d_def)
  have A: "push_bit 3 a OR drop_bit 5 (push_bit 3 a) = a * 8 + a div 4"
  proof -
    have "drop_bit 5 (push_bit 3 a) = a div 4"
      by (simp add: drop_bit_eq_div push_bit_eq_mult)
    moreover have "push_bit 3 a OR (a div 4) = a * 2 ^ 3 + a div 4"
      using ra by (intro push_bit_or_small) simp_all
    ultimately show ?thesis by simp
  qed
  have D: "push_bit 3 d OR drop_bit 5 (push_bit 3 d) = d * 8 + d div 4"
  proof -
    have "drop_bit 5 (push_bit 3 d) = d div 4"
      by (simp add: drop_bit_eq_div push_bit_eq_mult)
    moreover have "push_bit 3 d OR (d div 4) = d * 2 ^ 3 + d div 4"
      using rd by (intro push_bit_or_small) simp_all
    ultimately show ?thesis by simp
  qed
  have C: "push_bit 2 c OR drop_bit 6 (push_bit 2 c) = c * 4 + c div 16"
  proof -
    have "drop_bit 6 (push_bit 2 c) = c div 16"
      by (simp add: drop_bit_eq_div push_bit_eq_mult)
    moreover have "push_bit 2 c OR (c div 16) = c * 2 ^ 2 + c div 16"
      using rc by (intro push_bit_or_small) simp_all
    ultimately show ?thesis by simp
  qed
  have "rgb565_to_rgb v =
      (push_bit 3 a OR drop_bit 5 (push_bit 3 a),
       push_bit 2 c OR drop_bit 6 (push_bit 2 c),
       push_bit 3 d OR drop_bit 5 (push_bit 3 d))"
    unfolding rgb565_to_rgb_def Let_def a_def c_def d_def
    by (simp add: and_31_mod and_63_mod drop_bit_eq_div)
  then show ?thesis
    unfolding Let_def a_def [symmetric] c_def [symmetric] d_def [symmetric]
    by (simp add: A C D)
qed

lemma unpack_fields:
  fixes a c d :: int
  assumes bnd: "0 \<le> a" "a < 32" "0 \<le> c" "c < 64" "0 \<le> d" "d < 32"
  defines "v \<equiv> a * 2048 + c * 32 + d"
  shows "(v div 2048) mod 32 = a" and "(v div 32) mod 64 = c" and "v mod 32 = d"
proof -
  have low: "0 \<le> c * 32 + d" "c * 32 + d < 2048"
    using bnd by linarith+
  have v0: "v = a * 2048 + (c * 32 + d)"
    by (simp add: v_def)
  have "v div 2048 = a + (c * 32 + d) div 2048"
    unfolding v0 by (rule div_mult_self3) simp
  then have v1: "v div 2048 = a"
    using low by simp
  have v': "v = (a * 64 + c) * 32 + d"
    by (simp add: v_def)
  have "v div 32 = (a * 64 + c) + d div 32"
    unfolding v' by (rule div_mult_self3) simp
  then have v2: "v div 32 = a * 64 + c"
    using bnd by simp
  have "v mod 32 = d mod 32"
    unfolding v' by (rule mod_mult_self3)
  then show "v mod 32 = d"
    using bnd by simp
  show "(v div 2048) mod 32 = a"
    using bnd by (simp add: v1)
  have "(a * 64 + c) mod 64 = c mod 64"
    by (rule mod_mult_self3)
  then show "(v div 32) mod 64 = c"
    using bnd by (simp add: v2)
qed

lemma roundtrip_arith:
  assumes "0 \<le> r" "r \<le> 255" "0 \<le> g" "g \<le> 255" "0 \<le> b" "b \<le> 255"
  shows "rgb565_to_rgb (rgb_to_rgb565 r g b) =
     (r - r mod 8 + r div 32, g - g mod 4 + g div 64, b - b mod 8 + b div 32)"
proof -
  define v where "v = (r div 8) * 2048 + (g div 4) * 32 + b div 8"
  have bounds: "0 \<le> r div 8" "r div 8 < 32" "0 \<le> g div 4" "g div 4 < 64"
      "0 \<le> b div 8" "b div 8 < 32"
    using assms by simp_all
  note f = unpack_fields [OF bounds, folded v_def]
  have "rgb565_to_rgb v = (r div 8 * 8 + r div 8 div 4, g div 4 * 4 + g div 4 div 16,
      b div 8 * 8 + b div 8 div 4)"
    by (simp only: rgb565_to_rgb_arith f Let_def)
  moreover have "r div 8 * 8 = r - r mod 8" "g div 4 * 4 = g - g mod 4" "b div 8 * 8 = b - b mod 8"
    by (simp_all add: minus_mod_eq_div_mult)
  moreover have "r div 8 div 4 = r div 32" "g div 4 div 16 = g div 64" "b div 8 div 4 = b div 32"
    by (simp_all add: div_mult2_eq [symmetric])
  moreover have "rgb_to_rgb565 r g b = v"
    using assms by (simp only: rgb_to_rgb565_arith v_def)
  ultimately show ?thesis
    by (simp only:)
qed


section \<open>Properties of the codec\<close>

lemma rgb_to_rgb565_range:
  assumes "0 \<le> r" "r \<le> 255" "0 \<le> g" "g \<le> 255" "0 \<le> b" "b \<le> 255"
  shows "0 \<le> rgb_to_rgb565 r g b" and "rgb_to_rgb565 r g b \<le> 0xFFFF"
proof -
  have bounds: "0 \<le> r div 8" "r div 8 \<le> 31" "0 \<le> g div 4" "g div 4 \<le> 63"
      "0 \<le> b div 8" "b div 8 \<le> 31"
    using assms by simp_all
  have v: "rgb_to_rgb565 r g b = (r div 8) * 2048 + (g div 4) * 32 + b div 8"
    using assms by (simp only: rgb_to_rgb565_arith)
  show "0 \<le> rgb_to_rgb565 r g b"
    unfolding v using bounds by linarith
  show "rgb_to_rgb565 r g b \<le> 0xFFFF"
    unfolding v using bounds by linarith
qed

lemma rgb_to_rgb565_transparent_iff:
  assumes "0 \<le> r" "r \<le> 255" "0 \<le> g" "g \<le> 255" "0 \<le> b" "b \<le> 255"
  shows "rgb_to_rgb565 r g b = TRANSPARENT_RGB565 \<longleftrightarrow> 248 \<le> r \<and> g \<le> 3 \<and> 248 \<le> b"
proof -
  define a c d where "a = r div 8" and "c = g div 4" and "d = b div 8"
  have bounds: "0 \<le> a" "a < 32" "0 \<le> c" "c < 64" "0 \<le> d" "d < 32"
    using assms by (simp_all add: a_def c_def d_def)
  have v: "rgb_to_rgb565 r g b = a * 2048 + c * 32 + d"
    using assms by (simp only: rgb_to_rgb565_arith a_def c_def d_def)
  have "a = 31 \<and> c = 0 \<and> d = 31" if "a * 2048 + c * 32 + d = 63519"
    using unpack_fields [OF bounds] unfolding that by simp
  then have "a * 2048 + c * 32 + d = 63519 \<longleftrightarrow> a = 31 \<and> c = 0 \<and> d = 31"
    by auto
  moreover have "a = 31 \<longleftrightarrow> 248 \<le> r" "c = 0 \<longleftrightarrow> g \<le> 3" "d = 31 \<longleftrightarrow> 248 \<le> b"
    using assms unfolding a_def c_def d_def by linarith+
  ultimately show ?thesis
    by (simp add: v TRANSPARENT_RGB565_def)
qed

lemma rgb565_guard: "rgb565 r g b =
    (if rgb_to_rgb565 r g b = TRANSPARENT_RGB565 then 0xF81E else rgb_to_rgb565 r g b)"
  by (simp add: rgb565_def rgb_to_rgb565_def Let_def)

text \<open>
  C1. For every \<open>(r, g, b)\<close> with each component in \<open>[0, 255]\<close> the encoder with the
  guard, \<open>rgb565\<close>, never returns the transparent value \<open>0xF81F\<close>: a colour whose
  5/6/5 packing is \<open>0xF81F\<close> (exactly those with \<open>r \<ge> 248\<close>, \<open>g \<le> 3\<close>, \<open>b \<ge> 248\<close>)
  is replaced by \<open>0xF81E\<close>, every other colour keeps its packing. \<open>sprite2c\<close> keeps the
  guard in \<open>convert_sprite\<close>, after the bare \<open>rgb_to_rgb565\<close>: an opaque pixel that the
  colour key does not match gets the same guarded value there.
\<close>

theorem encode_never_transparent:
  assumes "0 \<le> r" "r \<le> 255" "0 \<le> g" "g \<le> 255" "0 \<le> b" "b \<le> 255"
  shows "rgb565 r g b \<noteq> TRANSPARENT_RGB565
    \<and> (rgb_to_rgb565 r g b = TRANSPARENT_RGB565 \<longleftrightarrow> 248 \<le> r \<and> g \<le> 3 \<and> 248 \<le> b)
    \<and> rgb565 r g b = (if 248 \<le> r \<and> g \<le> 3 \<and> 248 \<le> b then 0xF81E else rgb_to_rgb565 r g b)
    \<and> (\<forall>key a. 128 \<le> a \<longrightarrow> key \<noteq> Some (r, g, b) \<longrightarrow>
          convert_pixel key (r, g, b, a) = rgb565 r g b)"
proof -
  note iff = rgb_to_rgb565_transparent_iff [OF assms]
  have 1: "rgb565 r g b \<noteq> TRANSPARENT_RGB565"
    by (simp add: rgb565_guard TRANSPARENT_RGB565_def)
  have 3: "rgb565 r g b = (if 248 \<le> r \<and> g \<le> 3 \<and> 248 \<le> b then 0xF81E else rgb_to_rgb565 r g b)"
    using iff by (simp add: rgb565_guard)
  have 4: "convert_pixel key (r, g, b, a) = rgb565 r g b"
    if "128 \<le> a" "key \<noteq> Some (r, g, b)" for key a
    using that by (auto simp: convert_pixel_def rgb565_guard Let_def)
  from 1 iff 3 4 show ?thesis
    by blast
qed

theorem encode_never_transparent_witness:
  "rgb565 255 0 255 = 0xF81E \<and> rgb565 255 0 255 \<noteq> TRANSPARENT_RGB565
    \<and> rgb_to_rgb565 255 0 255 = TRANSPARENT_RGB565
    \<and> convert_pixel None (255, 0, 255, 255) = 0xF81E"
  using encode_never_transparent [of 255 0 255]
  by (simp add: TRANSPARENT_RGB565_def)

text \<open>
  C2. The triple \<open>(248, 252, 248)\<close> consists of multiples of the quantisation steps and does
  not collide with the transparent value, yet it decodes to \<open>(255, 255, 255)\<close>: the decoder
  refills the dropped low bits from the high bits.
\<close>

theorem roundtrip_multiple_of_step_counterexample:
  "rgb565_to_rgb (rgb_to_rgb565 248 252 248) = (255, 255, 255)
   \<and> rgb565_to_rgb (rgb565 248 252 248) \<noteq> (248, 252, 248)
   \<and> rgb565 248 252 248 \<noteq> TRANSPARENT_RGB565"
  by (simp add: rgb_to_rgb565_def rgb565_def rgb565_to_rgb_def TRANSPARENT_RGB565_def)

lemma refill_error:
  fixes x m q k :: int
  assumes "0 \<le> m" "m \<le> k" "0 \<le> q" "q \<le> k"
  shows "\<bar>x - m + q - x\<bar> \<le> k" and "x - m + q = x \<longleftrightarrow> m = q"
  using assms by linarith+

text \<open>
  C2, as the code has it. For every \<open>(r, g, b)\<close> in \<open>[0, 255]\<^sup>3\<close> the decoded channels
  are \<open>r - r mod 8 + r div 32\<close>, \<open>g - g mod 4 + g div 64\<close> and \<open>b - b mod 8 + b div 32\<close>;
  they differ from the input by at most 7 (red, blue) and 3 (green), and the round trip is
  exact precisely when \<open>r mod 8 = r div 32\<close>, \<open>g mod 4 = g div 64\<close> and
  \<open>b mod 8 = b div 32\<close>. Outside the collision case the guarded encoder decodes to the
  same triple.
\<close>

theorem decode_encode_error:
  assumes "0 \<le> r" "r \<le> 255" "0 \<le> g" "g \<le> 255" "0 \<le> b" "b \<le> 255"
  shows "(case rgb565_to_rgb (rgb_to_rgb565 r g b) of (r', g', b') \<Rightarrow>
            r' = r - r mod 8 + r div 32 \<and> g' = g - g mod 4 + g div 64
          \<and> b' = b - b mod 8 + b div 32
          \<and> \<bar>r' - r\<bar> \<le> 7 \<and> \<bar>g' - g\<bar> \<le> 3 \<and> \<bar>b' - b\<bar> \<le> 7
          \<and> ((r', g', b') = (r, g, b) \<longleftrightarrow>
                r mod 8 = r div 32 \<and> g mod 4 = g div 64 \<and> b mod 8 = b div 32))
      \<and> (rgb_to_rgb565 r g b \<noteq> TRANSPARENT_RGB565 \<longrightarrow>
            rgb565_to_rgb (rgb565 r g b) = rgb565_to_rgb (rgb_to_rgb565 r g b))"
proof -
  have "0 \<le> r mod 8" "r mod 8 \<le> 7" "0 \<le> r div 32" "r div 32 \<le> 7"
    using assms by simp_all
  note r = refill_error [OF this, of r]
  have "0 \<le> b mod 8" "b mod 8 \<le> 7" "0 \<le> b div 32" "b div 32 \<le> 7"
    using assms by simp_all
  note b = refill_error [OF this, of b]
  have "0 \<le> g mod 4" "g mod 4 \<le> 3" "0 \<le> g div 64" "g div 64 \<le> 3"
    using assms by simp_all
  note g = refill_error [OF this, of g]
  have guard: "rgb565_to_rgb (rgb565 r g b) = rgb565_to_rgb (rgb_to_rgb565 r g b)"
    if "rgb_to_rgb565 r g b \<noteq> TRANSPARENT_RGB565"
    using that by (simp add: rgb565_guard)
  have channels: "(case rgb565_to_rgb (rgb_to_rgb565 r g b) of (r', g', b') \<Rightarrow>
            r' = r - r mod 8 + r div 32 \<and> g' = g - g mod 4 + g div 64
          \<and> b' = b - b mod 8 + b div 32
          \<and> \<bar>r' - r\<bar> \<le> 7 \<and> \<bar>g' - g\<bar> \<le> 3 \<and> \<bar>b' - b\<bar> \<le> 7
          \<and> ((r', g', b') = (r, g, b) \<longleftrightarrow>
                r mod 8 = r div 32 \<and> g mod 4 = g div 64 \<and> b mod 8 = b div 32))"
    unfolding roundtrip_arith [OF assms] prod.case prod.inject
    by (intro conjI) (simp_all only: r g b refl)
  from channels guard show ?thesis
    by (intro conjI impI)
qed

theorem decode_encode_error_witness:
  "rgb565_to_rgb (rgb_to_rgb565 200 100 50) = (206, 101, 49)
   \<and> rgb565_to_rgb (rgb565 200 100 50) = (206, 101, 49)
   \<and> rgb565_to_rgb (rgb_to_rgb565 255 255 255) = (255, 255, 255)"
  using decode_encode_error [of 200 100 50] decode_encode_error [of 255 255 255]
  by (simp add: TRANSPARENT_RGB565_def rgb_to_rgb565_def rgb565_def rgb565_to_rgb_def)

text \<open>
  C8. An argument outside \<open>[0, 255]\<close> is not rejected: the encoders return a value, here
  one that does not even fit 16 bits.
\<close>

theorem encode_out_of_range_counterexample:
  "rgb_to_rgb565_outcome 256 0 0 = Inr 65536 \<and> rgb565_outcome 0 0 300 = Inr 37"
  by (simp add: rgb_to_rgb565_outcome_def rgb565_outcome_def rgb_to_rgb565_def rgb565_def
      TRANSPARENT_RGB565_def)

text \<open>
  C8, as the code has it. The encoders have no failure mode at all: they return a value for
  every integer triple, and for components in \<open>[0, 255]\<close> that value lies in
  \<open>[0, 0xFFFF]\<close>.
\<close>

theorem encode_total:
  "(\<exists>v. rgb_to_rgb565_outcome r g b = Inr v) \<and> (\<exists>v. rgb565_outcome r g b = Inr v)
   \<and> (0 \<le> r \<and> r \<le> 255 \<and> 0 \<le> g \<and> g \<le> 255 \<and> 0 \<le> b \<and> b \<le> 255 \<longrightarrow>
        (\<exists>v. rgb_to_rgb565_outcome r g b = Inr v \<and> 0 \<le> v \<and> v \<le> 0xFFFF)
      \<and> (\<exists>v. rgb565_outcome r g b = Inr v \<and> 0 \<le> v \<and> v \<le> 0xFFFF))"
proof -
  have "0 \<le> rgb_to_rgb565 r g b \<and> rgb_to_rgb565 r g b \<le> 0xFFFF
      \<and> 0 \<le> rgb565 r g b \<and> rgb565 r g b \<le> 0xFFFF"
    if "0 \<le> r" "r \<le> 255" "0 \<le> g" "g \<le> 255" "0 \<le> b" "b \<le> 255"
    using rgb_to_rgb565_range [OF that] by (simp add: rgb565_guard)
  then show ?thesis
    by (simp add: rgb_to_rgb565_outcome_def rgb565_outcome_def)
qed

theorem encode_total_witness:
  "rgb_to_rgb565_outcome 255 60 60 = Inr 0xF9E7 \<and> rgb565_outcome 255 60 60 = Inr 0xF9E7"
  using encode_total [of 255 60 60]
  by (simp add: rgb_to_rgb565_outcome_def rgb565_outcome_def rgb_to_rgb565_def rgb565_def
      TRANSPARENT_RGB565_def)

section \<open>Properties of the spritesheet loop\<close>

lemma collect_Inr_map: "collect f xs = Inr vs \<Longrightarrow> map f xs = map Inr vs"
  by (induction xs arbitrary: vs) (auto split: sum.splits)

lemma collect_all_Inr:
  "(\<And>x. x \<in> set xs \<Longrightarrow> f x = Inr (g x)) \<Longrightarrow> collect f xs = Inr (map g xs)"
  by (induction xs) auto

lemma collect_Inl: "collect f xs = Inl e \<Longrightarrow> \<exists>x\<in>set xs. f x = Inl e"
  by (induction xs) (auto split: sum.splits)

lemma collect_some_Inl:
  "x \<in> set xs \<Longrightarrow> f x = Inl e \<Longrightarrow> \<exists>e'. collect f xs = Inl e'"
  by (induction xs) (auto split: sum.splits)

lemma set_range_py: "set (range_py n) = {0..<n}"
  by (auto simp: range_py_def)

lemma getpixel_cases:
  "getpixel img xy = Inr (img_pixels img xy) \<or> getpixel img xy = Inl IndexError"
  by (cases xy) (simp add: getpixel_def)

lemma read_frame_Inl: "read_frame img fw fh key rc = Inl e \<Longrightarrow> e = IndexError"
proof -
  assume "read_frame img fw fh key rc = Inl e"
  then obtain yx where "(case yx of (y, x) \<Rightarrow>
      case getpixel img (snd rc * fw + x, fst rc * fh + y) of
        Inl e \<Rightarrow> Inl e | Inr px \<Rightarrow> Inr (convert_pixel key px)) = (Inl e :: error + int)"
    unfolding read_frame_def by (cases rc) (auto dest!: collect_Inl)
  then show ?thesis
    using getpixel_cases [of img "(snd rc * fw + snd yx, fst rc * fh + fst yx)"]
    by (cases yx) (auto split: sum.splits)
qed

lemma collect_Inr_eq_map:
  "collect f xs = Inr vs \<Longrightarrow> (\<And>x v. x \<in> set xs \<Longrightarrow> f x = Inr v \<Longrightarrow> v = g x)
    \<Longrightarrow> vs = map g xs"
  by (induction xs arbitrary: vs) (auto split: sum.splits)

lemma read_frame_Inr:
  assumes "read_frame img fw fh key rc = Inr fr"
  shows "fr = frame_pixels img fw fh key rc"
proof -
  obtain row col where rc: "rc = (row, col)"
    by (cases rc)
  have "v = convert_pixel key (img_pixels img (col * fw + x, row * fh + y))"
    if "(case getpixel img (col * fw + x, row * fh + y) of
          Inl e \<Rightarrow> Inl e | Inr px \<Rightarrow> Inr (convert_pixel key px)) = (Inr v :: error + int)"
    for x y v
    using that getpixel_cases [of img "(col * fw + x, row * fh + y)"]
    by (auto split: sum.splits)
  then show ?thesis
    using assms unfolding read_frame_def frame_pixels_def rc prod.case
    by (intro collect_Inr_eq_map [where f = "\<lambda>(y, x).
        case getpixel img (col * fw + x, row * fh + y) of
          Inl e \<Rightarrow> Inl e | Inr px \<Rightarrow> Inr (convert_pixel key px)"]) auto
qed

lemma read_frame_in_bounds:
  assumes "0 \<le> row" "0 \<le> col" "(col + 1) * fw \<le> img_width img" "(row + 1) * fh \<le> img_height img"
  shows "read_frame img fw fh key (row, col) = Inr (frame_pixels img fw fh key (row, col))"
proof -
  have "getpixel img (col * fw + x, row * fh + y) = Inr (img_pixels img (col * fw + x, row * fh + y))"
    if "0 \<le> x" "x < fw" "0 \<le> y" "y < fh" for x y
  proof -
    have "0 \<le> col * fw" "0 \<le> row * fh"
      using assms that by simp_all
    moreover have "col * fw + x < (col + 1) * fw" "row * fh + y < (row + 1) * fh"
      using that by (simp_all add: algebra_simps)
    ultimately show ?thesis
      using assms that by (simp add: getpixel_def)
  qed
  then show ?thesis
    unfolding read_frame_def frame_pixels_def prod.case
    by (intro collect_all_Inr) (auto simp: set_range_py)
qed

lemma read_frame_out_of_bounds:
  assumes "0 < fw" "0 < fh" "0 \<le> col" "img_width img < (col + 1) * fw"
  shows "read_frame img fw fh key (row, col) = Inl IndexError"
proof -
  have mem: "(0, fw - 1) \<in> set (List.product (range_py fh) (range_py fw))"
    using assms by (simp add: set_range_py)
  have "img_width img \<le> col * fw + (fw - 1)"
    using assms by (simp add: algebra_simps)
  then have "getpixel img (col * fw + (fw - 1), row * fh + 0) = Inl IndexError"
    by (simp add: getpixel_def)
  then have "\<exists>e'. read_frame img fw fh key (row, col) = Inl e'"
    unfolding read_frame_def prod.case
    by (intro collect_some_Inl [OF mem]) simp
  then show ?thesis
    using read_frame_Inl by blast
qed


lemma product_Nil_right: "List.product xs [] = []"
  by (induction xs) simp_all

lemma range_py_empty: "n \<le> 0 \<Longrightarrow> range_py n = []"
  by (simp add: range_py_def)

lemma read_frame_no_pixels:
  assumes "fw \<le> 0 \<or> fh \<le> 0"
  shows "read_frame img fw fh key rc = Inr []"
proof -
  have "List.product (range_py fh) (range_py fw) = []"
    using assms by (auto simp: range_py_empty product_Nil_right)
  then show ?thesis
    by (cases rc) (simp add: read_frame_def)
qed

lemma floor_times_le:
  fixes w fw :: int
  assumes "0 < fw"
  shows "(w div fw) * fw \<le> w" and "w < (w div fw + 1) * fw"
proof -
  have m: "0 \<le> w mod fw" "w mod fw < fw"
    using assms by simp_all
  have w: "w = (w div fw) * fw + w mod fw"
    by simp
  have s: "(w div fw + 1) * fw = (w div fw) * fw + fw"
    by (simp add: algebra_simps)
  show "(w div fw) * fw \<le> w"
    using m w by linarith
  show "w < (w div fw + 1) * fw"
    unfolding s using m w by linarith
qed

lemma frames_in_bounds:
  assumes "cols \<le> img_width img div fw" "rows \<le> img_height img div fh"
    and "(row, col) \<in> set (List.product (range_py rows) (range_py cols))"
  shows "\<exists>fr. read_frame img fw fh key (row, col) = Inr fr"
proof (cases "fw \<le> 0 \<or> fh \<le> 0")
  case True
  then show ?thesis
    by (simp add: read_frame_no_pixels)
next
  case False
  then have pos: "0 < fw" "0 < fh"
    by simp_all
  from assms(3) have rc: "0 \<le> row" "row < rows" "0 \<le> col" "col < cols"
    by (simp_all add: set_range_py)
  have "(col + 1) * fw \<le> (img_width img div fw) * fw"
    using rc assms(1) pos by (intro mult_right_mono) simp_all
  then have w: "(col + 1) * fw \<le> img_width img"
    using floor_times_le(1) [OF pos(1), of "img_width img"] by linarith
  have "(row + 1) * fh \<le> (img_height img div fh) * fh"
    using rc assms(2) pos by (intro mult_right_mono) simp_all
  then have h: "(row + 1) * fh \<le> img_height img"
    using floor_times_le(1) [OF pos(2), of "img_height img"] by linarith
  show ?thesis
    using read_frame_in_bounds [OF rc(1) rc(3) w h] by blast
qed

lemma collect_Inr_iff:
  "(\<exists>vs. collect f xs = Inr vs) \<longleftrightarrow> (\<forall>x\<in>set xs. \<exists>v. f x = Inr v)"
  by (induction xs) (auto split: sum.splits)

lemma convert_sprite_no_IndexError:
  assumes "cols = None \<or> (\<exists>c. cols = Some c \<and> c \<le> img_width img div fw)"
  shows "convert_sprite img fw fh key cols \<noteq> Inl IndexError"
proof -
  define cs where "cs = (case cols of Some c \<Rightarrow> c | None \<Rightarrow> img_width img div fw)"
  have cs: "cs \<le> img_width img div fw"
    using assms by (auto simp: cs_def)
  have "\<exists>vs. collect (read_frame img fw fh key)
      (List.product (range_py (img_height img div fh)) (range_py cs)) = Inr vs"
    unfolding collect_Inr_iff using frames_in_bounds [OF cs order_refl] by auto
  then show ?thesis
    unfolding convert_sprite_def Let_def cs_def [symmetric] by auto
qed

lemma convert_sprite_IndexError:
  assumes "0 < fw" "0 < fh" "fh \<le> img_height img" "0 \<le> img_width img"
    and "img_width img div fw < c"
  shows "convert_sprite img fw fh key (Some c) = Inl IndexError"
proof -
  define m where "m = img_width img div fw"
  define rows where "rows = img_height img div fh"
  have m: "0 \<le> m" "m < c"
    using assms by (simp_all add: m_def pos_imp_zdiv_nonneg_iff)
  have rows: "0 < rows"
    using assms unfolding rows_def by (simp add: pos_imp_zdiv_pos_iff)
  have mem: "(0, m) \<in> set (List.product (range_py rows) (range_py c))"
    using m rows by (simp add: set_range_py)
  have "read_frame img fw fh key (0, m) = Inl IndexError"
    using assms(1,2) m(1) floor_times_le(2) [OF assms(1), of "img_width img"]
    unfolding m_def by (intro read_frame_out_of_bounds) simp_all
  from collect_some_Inl [where f = "read_frame img fw fh key", OF mem this]
  obtain e where e: "collect (read_frame img fw fh key)
      (List.product (range_py rows) (range_py c)) = Inl e"
    by blast
  then have "e = IndexError"
    using collect_Inl [OF e] read_frame_Inl by blast
  with e show ?thesis
    using assms(1,2) m rows unfolding convert_sprite_def Let_def rows_def by auto
qed

lemma convert_sprite_Inr:
  assumes "convert_sprite img fw fh key cols = Inr frames"
  shows "frames = map (frame_pixels img fw fh key)
           (List.product (range_py (img_height img div fh))
              (range_py (case cols of Some c \<Rightarrow> c | None \<Rightarrow> img_width img div fw)))"
proof -
  from assms have "collect (read_frame img fw fh key)
      (List.product (range_py (img_height img div fh))
         (range_py (case cols of Some c \<Rightarrow> c | None \<Rightarrow> img_width img div fw))) = Inr frames"
    unfolding convert_sprite_def Let_def by (auto split: if_splits)
  then show ?thesis
    by (rule collect_Inr_eq_map) (simp add: read_frame_Inr)
qed

lemma convert_pixel_rule:
  "convert_pixel key (r, g, b, a) =
     (if key = Some (r, g, b) then TRANSPARENT_RGB565
      else if a < 128 then TRANSPARENT_RGB565 else rgb565 r g b)"
  by (auto simp: convert_pixel_def rgb565_guard Let_def)

text \<open>
  C3, as the code has it. Every frame that \<open>convert_sprite\<close> returns holds, row-major, the
  pixel rule applied to its cell of the image, and the rule is: a pixel whose RGB equals the
  supplied colour key becomes the transparent value; otherwise a pixel whose alpha is below
  128 becomes the transparent value, whether or not a colour key was supplied; every other
  pixel becomes the guarded RGB565 encoding of its RGB.
\<close>

theorem convert_sprite_pixels:
  assumes "convert_sprite img fw fh key cols = Inr frames"
  shows "frames = map (frame_pixels img fw fh key)
           (List.product (range_py (img_height img div fh))
              (range_py (case cols of Some c \<Rightarrow> c | None \<Rightarrow> img_width img div fw)))
    \<and> (\<forall>r g b a. convert_pixel key (r, g, b, a) =
          (if key = Some (r, g, b) then TRANSPARENT_RGB565
           else if a < 128 then TRANSPARENT_RGB565 else rgb565 r g b))"
  using convert_sprite_Inr [OF assms] by (simp add: convert_pixel_rule)

text \<open>
  C10. With the column count omitted, or supplied and at most
  \<open>img_width div frame_width\<close>, \<open>convert_sprite\<close> never reads a pixel outside the image
  (no \<open>IndexError\<close>). The count is not checked: with positive frame sizes and at least one
  row of cells, every supplied count above \<open>img_width div frame_width\<close> reaches a read
  outside the image.
\<close>

theorem convert_sprite_bounds:
  "(cols = None \<or> (\<exists>c. cols = Some c \<and> c \<le> img_width img div fw) \<longrightarrow>
      convert_sprite img fw fh key cols \<noteq> Inl IndexError)
   \<and> (0 < fw \<and> 0 < fh \<and> fh \<le> img_height img \<and> 0 \<le> img_width img
        \<and> img_width img div fw < c \<longrightarrow>
      convert_sprite img fw fh key (Some c) = Inl IndexError)"
proof (intro conjI impI)
  assume "cols = None \<or> (\<exists>c. cols = Some c \<and> c \<le> img_width img div fw)"
  then show "convert_sprite img fw fh key cols \<noteq> Inl IndexError"
    by (rule convert_sprite_no_IndexError)
next
  assume "0 < fw \<and> 0 < fh \<and> fh \<le> img_height img \<and> 0 \<le> img_width img
        \<and> img_width img div fw < c"
  then show "convert_sprite img fw fh key (Some c) = Inl IndexError"
    by (intro convert_sprite_IndexError) simp_all
qed


lemma range_py_1: "range_py 1 = [0]"
  by (simp add: range_py_def)

lemma range_py_2: "range_py 2 = [0, 1]"
  by (simp add: range_py_def upto_rec1)

lemma faint_pixel_frames:
  "convert_sprite faint_pixel 1 1 (Some (255, 0, 255)) None = Inr [[0xF81F]]"
  by (simp add: convert_sprite_def read_frame_def getpixel_def range_py_1 faint_pixel_def
      convert_pixel_def TRANSPARENT_RGB565_def)

text \<open>
  C3. With a colour key supplied, a pixel that does not match the key and has alpha 0 still
  becomes the transparent value, not the encoding \<open>0x08A3\<close> of its RGB.
\<close>

theorem raster_pixel_rule_counterexample:
  "convert_pixel (Some (255, 0, 255)) (10, 20, 30, 0) = TRANSPARENT_RGB565
   \<and> rgb_to_rgb565 10 20 30 = 0x08A3
   \<and> convert_sprite faint_pixel 1 1 (Some (255, 0, 255)) None = Inr [[0xF81F]]"
  by (simp add: faint_pixel_frames) (simp add: convert_pixel_def rgb_to_rgb565_def TRANSPARENT_RGB565_def)

lemma two_pixel_strip_frames:
  "convert_sprite two_pixel_strip 1 1 (Some (255, 0, 255)) None = Inr [[0xF81F], [0xF9E7]]"
  by (simp add: convert_sprite_def read_frame_def getpixel_def range_py_1 range_py_2
      two_pixel_strip_def convert_pixel_def TRANSPARENT_RGB565_def rgb_to_rgb565_def)

theorem convert_sprite_pixels_witness:
  "convert_sprite two_pixel_strip 1 1 (Some (255, 0, 255)) None = Inr [[0xF81F], [0xF9E7]]
   \<and> [[0xF81F], [0xF9E7]] = map (frame_pixels two_pixel_strip 1 1 (Some (255, 0, 255)))
         (List.product (range_py (img_height two_pixel_strip div 1))
            (range_py (img_width two_pixel_strip div 1)))
   \<and> convert_pixel (Some (255, 0, 255)) (255, 60, 60, 255) = rgb565 255 60 60"
  using convert_sprite_pixels [OF two_pixel_strip_frames] two_pixel_strip_frames
  by simp

theorem convert_sprite_bounds_witness:
  "convert_sprite two_pixel_strip 1 1 None None \<noteq> Inl IndexError
   \<and> convert_sprite two_pixel_strip 1 1 None (Some 2) \<noteq> Inl IndexError
   \<and> convert_sprite two_pixel_strip 1 1 None (Some 3) = Inl IndexError"
  using convert_sprite_bounds [of None two_pixel_strip 1 1 None 3]
    convert_sprite_bounds [of "Some 2" two_pixel_strip 1 1 None 3]
  by (simp add: two_pixel_strip_def)

end
